theory Spec2Isabelle
  imports Complex_Main
begin

section \<open>Messages\<close>

text \<open>
  The message and service types come from the packages \<^verbatim>\<open>arch_interfaces\<close>,
  \<^verbatim>\<open>geometry_msgs\<close> and \<^verbatim>\<open>tf2_ros\<close>, which both files import. The records
  below carry the fields that \<^verbatim>\<open>utils.py\<close> and \<^verbatim>\<open>test_manager.py\<close> read and write.
  Python floats are kept abstract (type variable \<open>'f\<close>): no arithmetic is done on them.
\<close>

record 'f Vector3 =
  x :: 'f
  y :: 'f
  z :: 'f

record 'f Position =
  px :: 'f
  py :: 'f
  pw :: 'f

section \<open>GoalPublisher\<close>

text \<open>
  \<^verbatim>\<open>GoalPublisher.__init__\<close> creates one publisher on the topic \<^verbatim>\<open>"goals"\<close>
  (queue depth 10 in \<^verbatim>\<open>utils.py\<close>, 1 in \<^verbatim>\<open>test_manager.py\<close>). The publisher object is
  modelled by the list of messages handed to it, oldest first.
\<close>

record 'f GoalPublisher =
  gp_node_name :: string
  gp_topic :: string
  gp_qos_depth :: nat
  gp_published :: "'f Position list"

definition GoalPublisher_init :: "nat \<Rightarrow> 'f GoalPublisher" where
  "GoalPublisher_init depth =
     \<lparr>gp_node_name = ''goal_publisher'', gp_topic = ''goals'',
      gp_qos_depth = depth, gp_published = []\<rparr>"

text \<open>\<^verbatim>\<open>self.publisher.publish(goal)\<close>: one call of the publisher, nothing else.\<close>

definition publish_goal :: "'f GoalPublisher \<Rightarrow> 'f Position \<Rightarrow> 'f GoalPublisher" where
  "publish_goal self goal = self\<lparr>gp_published := gp_published self @ [goal]\<rparr>"

section \<open>FixedFrameBroadcaster\<close>

text \<open>
  \<^verbatim>\<open>TransformStamped\<close>, with the nested fields \<^verbatim>\<open>t.header.stamp\<close>,
  \<^verbatim>\<open>t.header.frame_id\<close> and \<^verbatim>\<open>t.transform.translation\<close> written flat. The rotation
  of the message is never written by this code and keeps the value the constructor
  \<^verbatim>\<open>TransformStamped()\<close> gives it; it is left out. Clock readings have the abstract
  type \<open>'t\<close>.
\<close>

record ('f, 't) TransformStamped =
  header_stamp :: 't
  header_frame_id :: string
  child_frame_id :: string
  transform_translation :: "'f Vector3"

text \<open>
  A \<^verbatim>\<open>Vector3\<close> is a mutable object, and \<^verbatim>\<open>self.pos = pos\<close> keeps a reference to the
  object the caller passed, not a copy of it. So the objects live in a store, a map from
  references to their current values, and the node holds a reference.
\<close>

type_synonym ref = nat

type_synonym 'f store = "ref \<Rightarrow> 'f Vector3"

text \<open>
  The node of both files (\<^verbatim>\<open>utils.py\<close> lines 38-56, \<^verbatim>\<open>test_manager.py\<close> lines 16-34;
  they differ only in the default of \<^verbatim>\<open>freq\<close>). The \<^verbatim>\<open>TransformBroadcaster\<close> held in
  \<^verbatim>\<open>self.br\<close> is modelled by the list of transforms sent through it, oldest first; the
  timer by its period.
\<close>

record ('f, 't) FixedFrameBroadcaster =
  ff_node_name :: string
  parent_id :: string
  child_id :: string
  pos :: ref
  timer_period :: 'f
  br :: "('f, 't) TransformStamped list"

definition FixedFrameBroadcaster_init ::
  "string \<Rightarrow> string \<Rightarrow> ref \<Rightarrow> 'f \<Rightarrow> ('f, 't) FixedFrameBroadcaster" where
  "FixedFrameBroadcaster_init parent child p freq =
     \<lparr>ff_node_name = ''FF_'' @ child @ ''_broadcaster'',
      parent_id = parent, child_id = child, pos = p,
      timer_period = freq, br = []\<rparr>"

text \<open>
  The argument \<open>now\<close> is the reading \<^verbatim>\<open>self.get_clock().now().to_msg()\<close>. Lines 52-54
  read the three components of the object behind \<^verbatim>\<open>self.pos\<close> as they are at the
  time of the call.
\<close>

definition broadcast_timer_callback ::
  "'f store \<Rightarrow> ('f, 't) FixedFrameBroadcaster \<Rightarrow> 't \<Rightarrow> ('f, 't) FixedFrameBroadcaster" where
  "broadcast_timer_callback st self now =
     (let t = \<lparr>header_stamp = now,
               header_frame_id = parent_id self,
               child_frame_id = child_id self,
               transform_translation =
                 \<lparr>x = x (st (pos self)), y = y (st (pos self)), z = z (st (pos self))\<rparr>\<rparr>
      in self\<lparr>br := br self @ [t]\<rparr>)"

text \<open>
  What happens while the node runs: the timer fires, with a clock reading, or other code
  assigns to a component of some \<^verbatim>\<open>Vector3\<close> object (\<^verbatim>\<open>v.x = a\<close> and so on).
\<close>

datatype ('f, 't) step = Tick 't | Assign_x ref 'f | Assign_y ref 'f | Assign_z ref 'f

fun do_step ::
  "'f store \<times> ('f, 't) FixedFrameBroadcaster \<Rightarrow> ('f, 't) step
     \<Rightarrow> 'f store \<times> ('f, 't) FixedFrameBroadcaster" where
  "do_step (st, self) (Tick now) = (st, broadcast_timer_callback st self now)"
| "do_step (st, self) (Assign_x r a) = (st(r := (st r)\<lparr>x := a\<rparr>), self)"
| "do_step (st, self) (Assign_y r a) = (st(r := (st r)\<lparr>y := a\<rparr>), self)"
| "do_step (st, self) (Assign_z r a) = (st(r := (st r)\<lparr>z := a\<rparr>), self)"

fun run ::
  "'f store \<times> ('f, 't) FixedFrameBroadcaster \<Rightarrow> ('f, 't) step list
     \<Rightarrow> 'f store \<times> ('f, 't) FixedFrameBroadcaster" where
  "run s [] = s"
| "run s (a # later) = run (do_step s a) later"

text \<open>The clock readings of the ticks among the steps, and whether a step assigns to \<open>r\<close>.\<close>

fun stamps :: "('f, 't) step list \<Rightarrow> 't list" where
  "stamps [] = []"
| "stamps (Tick now # later) = now # stamps later"
| "stamps (a # later) = stamps later"

fun assigns_to :: "ref \<Rightarrow> ('f, 't) step \<Rightarrow> bool" where
  "assigns_to r (Tick now) = False"
| "assigns_to r (Assign_x r' a) = (r' = r)"
| "assigns_to r (Assign_y r' a) = (r' = r)"
| "assigns_to r (Assign_z r' a) = (r' = r)"

section \<open>The agent request service\<close>

text \<open>
  Modelled from the spec: \<^verbatim>\<open>ManagerRequestTypes\<close> and \<^verbatim>\<open>ManagerResponseTypes\<close> are
  declared in \<^verbatim>\<open>arch_components.manager\<close>, which is not among the source files. The spec
  describes them as enumerated types and names the request types \<^verbatim>\<open>IDLE\<close> and
  \<^verbatim>\<open>AGENT_DISCONNECTED\<close> and the response types \<^verbatim>\<open>WAIT_PLAN\<close> and \<^verbatim>\<open>RETRY\<close>. The
  fields that carry them are strings, so a third constructor stands for every value the
  spec does not name.
\<close>

datatype ManagerRequestTypes = IDLE | AGENT_DISCONNECTED | Other_request string

datatype ManagerResponseTypes = WAIT_PLAN | RETRY | Other_response string

text \<open>\<^verbatim>\<open>AgentRequest.Request\<close> and \<^verbatim>\<open>AgentRequest.Response\<close>.\<close>

record Request =
  agent_msg :: ManagerRequestTypes
  agent_id :: string

record Response =
  error_msg :: ManagerResponseTypes
  args :: "string list"

section \<open>AgentTestExecutor\<close>

text \<open>
  What the method does to the outside is recorded as a trace: \<open>Sleep_0_1\<close> is
  \<^verbatim>\<open>sleep(0.1)\<close>, \<open>Sleep t\<close> is \<^verbatim>\<open>sleep(sleep_time)\<close> and \<open>Call r\<close> is
  \<^verbatim>\<open>self.cli.call(r)\<close>.
\<close>

datatype 'f event = Sleep_0_1 | Sleep 'f | Call Request

text \<open>
  The exceptions of lines 91 and 92: \<^verbatim>\<open>response.args[0]\<close> on an empty list,
  \<^verbatim>\<open>float(...)\<close> on a string that is no float, and \<^verbatim>\<open>sleep(...)\<close> on a duration
  that \<^verbatim>\<open>time.sleep\<close> rejects (a negative one, for instance).
\<close>

datatype py_error = IndexError | ValueError | Sleep_rejected

text \<open>
  Everything the executor gets from outside: the answer of the \<open>n\<close>-th call of
  \<^verbatim>\<open>service_is_ready()\<close>, the response of the service to the \<open>n\<close>-th request, and
  the Python builtins \<^verbatim>\<open>float\<close> (\<open>None\<close> where it raises) and \<^verbatim>\<open>time.sleep\<close>
  (which durations it accepts). The service answers every call.
\<close>

record 'f host =
  service_is_ready :: "nat \<Rightarrow> bool"
  call :: "nat \<Rightarrow> Request \<Rightarrow> Response"
  py_float :: "string \<Rightarrow> 'f option"
  sleep_accepts :: "'f \<Rightarrow> bool"

text \<open>How many polls and requests have been made so far, and the trace.\<close>

record 'f world =
  polls :: nat
  calls :: nat
  trace :: "'f event list"

record AgentTestExecutor =
  ex_node_name :: string
  ex_agent_id :: string
  info_log :: "string list"

definition AgentTestExecutor_init :: "string \<Rightarrow> AgentTestExecutor" where
  "AgentTestExecutor_init a =
     \<lparr>ex_node_name = a @ ''_executor'', ex_agent_id = a, info_log = []\<rparr>"

definition cli_call :: "'f host \<Rightarrow> Request \<Rightarrow> 'f world \<Rightarrow> Response \<times> 'f world" where
  "cli_call h req w =
     (call h (calls w) req, w\<lparr>calls := Suc (calls w), trace := trace w @ [Call req]\<rparr>)"

definition sleep :: "'f host \<Rightarrow> 'f \<Rightarrow> 'f world \<Rightarrow> py_error + 'f world" where
  "sleep h t w =
     (if sleep_accepts h t then Inr (w\<lparr>trace := trace w @ [Sleep t]\<rparr>) else Inl Sleep_rejected)"

text \<open>Line 91: \<^verbatim>\<open>sleep_time = float(response.args[0])\<close>.\<close>

definition sleep_time :: "'f host \<Rightarrow> Response \<Rightarrow> py_error + 'f" where
  "sleep_time h response =
     (case args response of
        [] \<Rightarrow> Inl IndexError
      | a # _ \<Rightarrow> (case py_float h a of None \<Rightarrow> Inl ValueError | Some t \<Rightarrow> Inr t))"

text \<open>
  Lines 87-88: \<^verbatim>\<open>while not self.cli.service_is_ready(): sleep(0.1)\<close>. The loop may run
  forever; \<open>None\<close> is not returning.
\<close>

partial_function (option) wait_for_service :: "'f host \<Rightarrow> 'f world \<Rightarrow> 'f world option" where
  "wait_for_service h w =
     (if service_is_ready h (polls w) then Some (w\<lparr>polls := Suc (polls w)\<rparr>)
      else wait_for_service h (w\<lparr>polls := Suc (polls w), trace := trace w @ [Sleep_0_1]\<rparr>))"

text \<open>
  Lines 90-93, entered with the response of line 89. The request is built anew from
  \<^verbatim>\<open>agent_msg\<close> and \<^verbatim>\<open>self.agent_id\<close> in each round. The result is \<open>Inr ()\<close> when the
  loop is left normally and \<open>Inl e\<close> when the exception \<open>e\<close> leaves it.
\<close>

partial_function (option) retry_loop ::
  "'f host \<Rightarrow> AgentTestExecutor \<Rightarrow> ManagerRequestTypes \<Rightarrow> Response \<Rightarrow> 'f world
     \<Rightarrow> ((py_error + unit) \<times> 'f world) option" where
  "retry_loop h self msg response w =
     (if error_msg response = RETRY then
        (case sleep_time h response of
           Inl e \<Rightarrow> Some (Inl e, w)
         | Inr t \<Rightarrow>
             (case sleep h t w of
                Inl e \<Rightarrow> Some (Inl e, w)
              | Inr w1 \<Rightarrow>
                  retry_loop h self msg
                    (fst (cli_call h \<lparr>agent_msg = msg, agent_id = ex_agent_id self\<rparr> w1))
                    (snd (cli_call h \<lparr>agent_msg = msg, agent_id = ex_agent_id self\<rparr> w1))))
      else Some (Inr (), w))"

definition request_and_wait_for_response ::
  "'f host \<Rightarrow> AgentTestExecutor \<Rightarrow> ManagerRequestTypes \<Rightarrow> 'f world
     \<Rightarrow> ((py_error + unit) \<times> 'f world) option" where
  "request_and_wait_for_response h self msg w =
     (case wait_for_service h w of
        None \<Rightarrow> None
      | Some w1 \<Rightarrow>
          retry_loop h self msg
            (fst (cli_call h \<lparr>agent_msg = msg, agent_id = ex_agent_id self\<rparr> w1))
            (snd (cli_call h \<lparr>agent_msg = msg, agent_id = ex_agent_id self\<rparr> w1)))"

text \<open>
  \<^verbatim>\<open>disconect_and_reconnect\<close>: the second call uses the default \<^verbatim>\<open>agent_msg\<close>,
  \<^verbatim>\<open>ManagerRequestTypes.IDLE\<close>, and is not reached when the first one raises.
\<close>

definition disconect_and_reconnect ::
  "'f host \<Rightarrow> AgentTestExecutor \<Rightarrow> 'f world \<Rightarrow> ((py_error + unit) \<times> 'f world) option" where
  "disconect_and_reconnect h self w =
     (case request_and_wait_for_response h self AGENT_DISCONNECTED w of
        None \<Rightarrow> None
      | Some (Inl e, w1) \<Rightarrow> Some (Inl e, w1)
      | Some (Inr u, w1) \<Rightarrow> request_and_wait_for_response h self IDLE w1)"

text \<open>The request of lines 89 and 93, \<^verbatim>\<open>AgentRequest.Request(agent_msg=agent_msg, agent_id=self.agent_id)\<close>.\<close>

abbreviation the_request :: "AgentTestExecutor \<Rightarrow> ManagerRequestTypes \<Rightarrow> Request" where
  "the_request self msg \<equiv> \<lparr>agent_msg = msg, agent_id = ex_agent_id self\<rparr>"

text \<open>
  The responses the loop of lines 90-93 reads, in order, when it is entered with the
  response \<open>r\<close> in the world \<open>w\<close>: \<open>r\<close> itself, then the answers to the requests it
  sends.
\<close>

definition responses ::
  "'f host \<Rightarrow> AgentTestExecutor \<Rightarrow> ManagerRequestTypes \<Rightarrow> Response \<Rightarrow> 'f world \<Rightarrow> nat \<Rightarrow> Response" where
  "responses h self msg r w i =
     (case i of 0 \<Rightarrow> r | Suc j \<Rightarrow> call h (calls w + j) (the_request self msg))"

text \<open>
  A response carries a usable delay when lines 91 and 92 go through on it:
  \<^verbatim>\<open>args[0]\<close> exists, \<^verbatim>\<open>float\<close> converts it and \<^verbatim>\<open>sleep\<close> accepts the result.
\<close>

definition carries_delay :: "'f host \<Rightarrow> Response \<Rightarrow> bool" where
  "carries_delay h r = (case sleep_time h r of Inl e \<Rightarrow> False | Inr t \<Rightarrow> sleep_accepts h t)"

text \<open>
  How the loop is left on a response that does not send it into another round: normally
  on a response that is not \<^verbatim>\<open>RETRY\<close>, by the exception of line 91 or 92 otherwise.
\<close>

definition stops_with :: "'f host \<Rightarrow> Response \<Rightarrow> py_error + unit" where
  "stops_with h r =
     (if error_msg r = RETRY
      then (case sleep_time h r of Inl e \<Rightarrow> Inl e | Inr t \<Rightarrow> Inl Sleep_rejected)
      else Inr ())"

subsection \<open>The path subscription\<close>

text \<open>
  \<^verbatim>\<open>AgentPaths\<close> and \<^verbatim>\<open>AssignedPath\<close> of \<^verbatim>\<open>arch_interfaces.msg\<close>; a point of a path
  has a \<^verbatim>\<open>translation\<close> with the components \<^verbatim>\<open>x\<close>, \<^verbatim>\<open>y\<close>, \<^verbatim>\<open>z\<close>. Only the
  fields \<^verbatim>\<open>sol_callback\<close> reads are kept.
\<close>

record 'f Transform =
  translation :: "'f Vector3"

record 'f AssignedPath =
  path_agent_id :: string
  path :: "'f Transform list"

record 'f AgentPaths =
  agent_paths :: "'f AssignedPath list"

text \<open>Python's \<^verbatim>\<open>sep.join(strings)\<close>.\<close>

fun join :: "string \<Rightarrow> string list \<Rightarrow> string" where
  "join sep [] = []"
| "join sep [s] = s"
| "join sep (s # s' # ss) = s @ sep @ join sep (s' # ss)"

text \<open>
  \<^verbatim>\<open>str((a, b))\<close> for two floats; \<open>str\<close> is Python's text of a float, a parameter.
\<close>

definition str_pair :: "('f \<Rightarrow> string) \<Rightarrow> 'f \<Rightarrow> 'f \<Rightarrow> string" where
  "str_pair str a b = ''('' @ str a @ '', '' @ str b @ '')''"

text \<open>Line 103.\<close>

definition string_solution :: "('f \<Rightarrow> string) \<Rightarrow> 'f AssignedPath \<Rightarrow> string" where
  "string_solution str assigned_path =
     join ''-->''
       (map (\<lambda>point. str_pair str (x (translation point)) (z (translation point)))
          (path assigned_path))"

text \<open>\<^verbatim>\<open>self.get_logger().info(m)\<close>.\<close>

definition info :: "AgentTestExecutor \<Rightarrow> string \<Rightarrow> AgentTestExecutor" where
  "info self m = self\<lparr>info_log := info_log self @ [m]\<rparr>"

text \<open>
  The \<^verbatim>\<open>for\<close> loop of lines 101-105 with its \<^verbatim>\<open>return\<close>, and line 107 when the loop
  runs to its end.
\<close>

fun sol_callback_loop ::
  "('f \<Rightarrow> string) \<Rightarrow> AgentTestExecutor \<Rightarrow> 'f AssignedPath list \<Rightarrow> AgentTestExecutor" where
  "sol_callback_loop str self [] = info self (''NO PATH PUBLISHED FOR '' @ ex_agent_id self)"
| "sol_callback_loop str self (assigned_path # rest) =
     (if path_agent_id assigned_path = ex_agent_id self
      then info self (''PATH PUBLISHED FOR '' @ ex_agent_id self @ '': ''
                        @ string_solution str assigned_path)
      else sol_callback_loop str self rest)"

definition sol_callback ::
  "('f \<Rightarrow> string) \<Rightarrow> AgentTestExecutor \<Rightarrow> 'f AgentPaths \<Rightarrow> AgentTestExecutor" where
  "sol_callback str self msg = sol_callback_loop str self (agent_paths msg)"

text \<open>
  The same message with the \<^verbatim>\<open>y\<close> component of every point of every path replaced by
  \<open>c\<close>; used to say that \<^verbatim>\<open>sol_callback\<close> does not look at \<^verbatim>\<open>y\<close>.
\<close>

definition overwrite_y :: "'f \<Rightarrow> 'f AgentPaths \<Rightarrow> 'f AgentPaths" where
  "overwrite_y c msg =
     \<lparr>agent_paths =
        map (\<lambda>ap. \<lparr>path_agent_id = path_agent_id ap,
                    path = map (\<lambda>pt. \<lparr>translation = \<lparr>x = x (translation pt), y = c,
                                                         z = z (translation pt)\<rparr>\<rparr>) (path ap)\<rparr>)
          (agent_paths msg)\<rparr>"

section \<open>Manager\<close>

text \<open>
  Modelled from the spec: the class \<^verbatim>\<open>Manager\<close> of \<^verbatim>\<open>arch_components.manager\<close> is not
  among the source files; only its test \<^verbatim>\<open>test_manager.py\<close> is. The spec gives it two
  ordered collections, \<^verbatim>\<open>unassigned_agents\<close> (agent identifiers awaiting a path) and
  \<^verbatim>\<open>unassigned_goals\<close> (goal positions not yet assigned), and speaks of a computed
  plan, which is there or not.
\<close>

record 'f Manager =
  unassigned_agents :: "string list"
  unassigned_goals :: "'f Position list"
  computed_plan :: "'f AssignedPath list option"

text \<open>
  Modelled from the spec: the constructor \<^verbatim>\<open>Manager()\<close>. The tests assert on a new
  Manager that one request leaves exactly one agent and one goal message exactly one
  goal, so both collections start empty; no plan has been computed.
\<close>

definition Manager_init :: "'f Manager" where
  "Manager_init = \<lparr>unassigned_agents = [], unassigned_goals = [], computed_plan = None\<rparr>"

text \<open>
  Modelled from the spec: the Manager's subscription to the goal channel. A goal
  message is accumulated into \<^verbatim>\<open>unassigned_goals\<close>.
\<close>

definition goal_callback :: "'f Manager \<Rightarrow> 'f Position \<Rightarrow> 'f Manager" where
  "goal_callback m goal = m\<lparr>unassigned_goals := unassigned_goals m @ [goal]\<rparr>"

text \<open>
  Modelled from the spec: \<^verbatim>\<open>Manager.agent_callback(request, response)\<close>, the handler
  of the service \<^verbatim>\<open>agent_request\<close>. An agent enters \<^verbatim>\<open>unassigned_agents\<close> on an
  \<^verbatim>\<open>IDLE\<close> request and is removed on \<^verbatim>\<open>AGENT_DISCONNECTED\<close>; an \<^verbatim>\<open>IDLE\<close> request
  made while goals are pending and no plan is computed is answered \<^verbatim>\<open>WAIT_PLAN\<close> and
  leaves the goals unassigned. Where the spec names no answer, the response object is
  returned as the handler got it.
\<close>

definition agent_callback ::
  "'f Manager \<Rightarrow> Request \<Rightarrow> Response \<Rightarrow> Response \<times> 'f Manager" where
  "agent_callback m request response =
     (case agent_msg request of
        IDLE \<Rightarrow>
          (let m' = m\<lparr>unassigned_agents :=
                       (if agent_id request \<in> set (unassigned_agents m)
                        then unassigned_agents m
                        else unassigned_agents m @ [agent_id request])\<rparr>
           in if unassigned_goals m \<noteq> [] \<and> computed_plan m = None
              then (response\<lparr>error_msg := WAIT_PLAN\<rparr>, m')
              else (response, m'))
      | AGENT_DISCONNECTED \<Rightarrow>
          (response,
           m\<lparr>unassigned_agents := removeAll (agent_id request) (unassigned_agents m)\<rparr>)
      | Other_request s \<Rightarrow> (response, m))"

section \<open>Example runs\<close>

text \<open>
  Concrete inputs on which the theorems below are instantiated. Floats are reals here;
  \<^verbatim>\<open>float\<close> knows the one string the examples send, and \<^verbatim>\<open>sleep\<close> accepts what is
  not negative.
\<close>

definition agent_1 :: AgentTestExecutor where
  "agent_1 = AgentTestExecutor_init ''agent_1''"

definition fresh_world :: "real world" where
  "fresh_world = \<lparr>polls = 0, calls = 0, trace = []\<rparr>"

definition float_of_text :: "string \<Rightarrow> real option" where
  "float_of_text s = (if s = ''0.5'' then Some (1 / 2) else None)"

text \<open>
  The service is ready at the third poll and answers \<^verbatim>\<open>RETRY\<close> with the delay
  \<^verbatim>\<open>"0.5"\<close> twice, then \<^verbatim>\<open>WAIT_PLAN\<close>.
\<close>

definition busy_twice_host :: "real host" where
  "busy_twice_host =
     \<lparr>service_is_ready = (\<lambda>n. 2 \<le> n),
      call = (\<lambda>n req. if n < 2 then \<lparr>error_msg = RETRY, args = [''0.5'']\<rparr>
                       else \<lparr>error_msg = WAIT_PLAN, args = []\<rparr>),
      py_float = float_of_text,
      sleep_accepts = (\<lambda>t. 0 \<le> t)\<rparr>"

text \<open>
  The service is ready at the third poll and answers \<^verbatim>\<open>RETRY\<close> with the delay
  \<^verbatim>\<open>"0.5"\<close>, then \<^verbatim>\<open>RETRY\<close> with the delay \<^verbatim>\<open>"2.0"\<close>, then \<^verbatim>\<open>WAIT_PLAN\<close>.
\<close>

definition float_of_delay_text :: "string \<Rightarrow> real option" where
  "float_of_delay_text s =
     (if s = ''0.5'' then Some (1 / 2) else if s = ''2.0'' then Some 2 else None)"

definition two_delays_host :: "real host" where
  "two_delays_host =
     \<lparr>service_is_ready = (\<lambda>n. 2 \<le> n),
      call = (\<lambda>n req. if n = 0 then \<lparr>error_msg = RETRY, args = [''0.5'']\<rparr>
                       else if n = 1 then \<lparr>error_msg = RETRY, args = [''2.0'']\<rparr>
                       else \<lparr>error_msg = WAIT_PLAN, args = []\<rparr>),
      py_float = float_of_delay_text,
      sleep_accepts = (\<lambda>t. 0 \<le> t)\<rparr>"

text \<open>
  The service answers the first request \<^verbatim>\<open>RETRY\<close> with empty \<^verbatim>\<open>args\<close> and every later
  one \<^verbatim>\<open>WAIT_PLAN\<close>.
\<close>

definition empty_args_then_plan_host :: "real host" where
  "empty_args_then_plan_host =
     \<lparr>service_is_ready = (\<lambda>n. True),
      call = (\<lambda>n req. if n = 0 then \<lparr>error_msg = RETRY, args = []\<rparr>
                       else \<lparr>error_msg = WAIT_PLAN, args = []\<rparr>),
      py_float = float_of_text,
      sleep_accepts = (\<lambda>t. 0 \<le> t)\<rparr>"

text \<open>The service answers \<^verbatim>\<open>RETRY\<close> with the delay \<^verbatim>\<open>"0.5"\<close> to every request.\<close>

definition always_busy_host :: "real host" where
  "always_busy_host =
     \<lparr>service_is_ready = (\<lambda>n. True),
      call = (\<lambda>n req. \<lparr>error_msg = RETRY, args = [''0.5'']\<rparr>),
      py_float = float_of_text,
      sleep_accepts = (\<lambda>t. 0 \<le> t)\<rparr>"

text \<open>The service answers \<^verbatim>\<open>RETRY\<close> with empty \<^verbatim>\<open>args\<close> to every request.\<close>

definition empty_args_host :: "real host" where
  "empty_args_host =
     \<lparr>service_is_ready = (\<lambda>n. True),
      call = (\<lambda>n req. \<lparr>error_msg = RETRY, args = []\<rparr>),
      py_float = float_of_text,
      sleep_accepts = (\<lambda>t. 0 \<le> t)\<rparr>"

text \<open>
  A store in which every \<^verbatim>\<open>Vector3\<close> is \<^verbatim>\<open>(1.0, 1.0, 1.0)\<close>, and the broadcaster of the
  arena frame built on the object with the reference 0.
\<close>

definition ones :: "real store" where
  "ones = (\<lambda>r. \<lparr>x = 1, y = 1, z = 1\<rparr>)"

definition arena_broadcaster :: "(real, nat) FixedFrameBroadcaster" where
  "arena_broadcaster = FixedFrameBroadcaster_init ''world'' ''arena'' 0 (1 / 100)"

text \<open>
  A broadcast of three assigned paths, two of them for \<^verbatim>\<open>agent_1\<close>. Floats are kept as
  their texts here, so that \<^verbatim>\<open>str\<close> is the identity.
\<close>

definition point :: "string \<Rightarrow> string \<Rightarrow> string \<Rightarrow> string Transform" where
  "point a b c = \<lparr>translation = \<lparr>x = a, y = b, z = c\<rparr>\<rparr>"

definition three_paths :: "string AgentPaths" where
  "three_paths =
     \<lparr>agent_paths =
        [\<lparr>path_agent_id = ''agent_2'', path = [point ''9.0'' ''9.0'' ''9.0'']\<rparr>,
         \<lparr>path_agent_id = ''agent_1'',
          path = [point ''1.0'' ''7.0'' ''2.0'', point ''3.0'' ''8.0'' ''4.0'']\<rparr>,
         \<lparr>path_agent_id = ''agent_1'', path = [point ''5.0'' ''5.0'' ''5.0'']\<rparr>]\<rparr>"

definition only_path :: "string Transform list \<Rightarrow> string AgentPaths" where
  "only_path pts = \<lparr>agent_paths = [\<lparr>path_agent_id = ''agent_1'', path = pts\<rparr>]\<rparr>"

definition no_path_for_agent_1 :: "string AgentPaths" where
  "no_path_for_agent_1 =
     \<lparr>agent_paths = [\<lparr>path_agent_id = ''agent_2'', path = [point ''9.0'' ''9.0'' ''9.0'']\<rparr>]\<rparr>"

text \<open>The goal of \<^verbatim>\<open>test_manager_live_request\<close>, \<^verbatim>\<open>Position(x=50.0, y=50.0, w=1.0)\<close>.\<close>

definition goal_50 :: "real Position" where
  "goal_50 = \<lparr>px = 50, py = 50, pw = 1\<rparr>"

text \<open>
  The requests of \<^verbatim>\<open>test_agent_requests\<close> and \<^verbatim>\<open>test_manager_live_request\<close>, and a
  response object as the service hands it to the handler, nothing filled in yet.
\<close>

definition blank_response :: Response where
  "blank_response = \<lparr>error_msg = Other_response [], args = []\<rparr>"

definition idle_agent_1 :: Request where
  "idle_agent_1 = \<lparr>agent_msg = IDLE, agent_id = ''agent_1''\<rparr>"

definition disconnect_agent_1 :: Request where
  "disconnect_agent_1 = \<lparr>agent_msg = AGENT_DISCONNECTED, agent_id = ''agent_1''\<rparr>"

section \<open>Properties\<close>

subsection \<open>The two loops of the executor\<close>

lemma wait_for_service_ready:
  "\<forall>i<n. \<not> service_is_ready h (polls w + i) \<Longrightarrow> service_is_ready h (polls w + n) \<Longrightarrow>
   wait_for_service h w
     = Some (w\<lparr>polls := Suc (polls w + n), trace := trace w @ replicate n Sleep_0_1\<rparr>)"
proof (induction n arbitrary: w)
  case 0
  then show ?case by (subst wait_for_service.simps) simp
next
  case (Suc n)
  let ?w1 = "w\<lparr>polls := Suc (polls w), trace := trace w @ [Sleep_0_1]\<rparr>"
  from Suc.prems have nr: "\<not> service_is_ready h (polls w)" by auto
  from Suc.prems have a: "\<forall>i<n. \<not> service_is_ready h (polls ?w1 + i)" by auto
  from Suc.prems have b: "service_is_ready h (polls ?w1 + n)" by simp
  have "wait_for_service h w = wait_for_service h ?w1"
    using nr by (subst wait_for_service.simps) simp
  also have "\<dots> = Some (?w1\<lparr>polls := Suc (polls ?w1 + n), trace := trace ?w1 @ replicate n Sleep_0_1\<rparr>)"
    by (rule Suc.IH [OF a b])
  finally show ?case by (simp add: replicate_app_Cons_same)
qed

lemma wait_for_service_Some_ready:
  assumes "wait_for_service h w = Some w'"
  shows "\<exists>i. service_is_ready h (polls w + i)"
proof (rule wait_for_service.raw_induct
    [where P = "\<lambda>h w w'. \<exists>i. service_is_ready h (polls w + i)", OF _ assms])
  fix wfs :: "'f host \<Rightarrow> 'f world \<Rightarrow> 'f world option" and h w w'
  assume IH: "\<And>h w w'. wfs h w = Some w' \<Longrightarrow> \<exists>i. service_is_ready h (polls w + i)"
    and step: "(if service_is_ready h (polls w) then Some (w\<lparr>polls := Suc (polls w)\<rparr>)
      else wfs h (w\<lparr>polls := Suc (polls w), trace := trace w @ [Sleep_0_1]\<rparr>)) = Some w'"
  show "\<exists>i. service_is_ready h (polls w + i)"
  proof (cases "service_is_ready h (polls w)")
    case True
    then have "service_is_ready h (polls w + 0)" by simp
    then show ?thesis by blast
  next
    case False
    with step have "wfs h (w\<lparr>polls := Suc (polls w), trace := trace w @ [Sleep_0_1]\<rparr>) = Some w'"
      by simp
    from IH [OF this] obtain i where "service_is_ready h (Suc (polls w) + i)" by auto
    then have "service_is_ready h (polls w + Suc i)" by simp
    then show ?thesis by blast
  qed
qed

lemma wait_for_service_never_ready:
  "\<forall>i. \<not> service_is_ready h (polls w + i) \<Longrightarrow> wait_for_service h w = None"
  using wait_for_service_Some_ready [of h w] by (cases "wait_for_service h w") auto


lemma responses_0 [simp]: "responses h self msg r w 0 = r"
  by (simp add: responses_def)

lemma responses_Suc:
  "responses h self msg r w (Suc j) = call h (calls w + j) (the_request self msg)"
  by (simp add: responses_def)

lemma responses_next:
  "calls w1 = calls w \<Longrightarrow>
   responses h self msg (fst (cli_call h (the_request self msg) w1))
      (snd (cli_call h (the_request self msg) w1)) i
   = responses h self msg r w (Suc i)"
  by (cases i) (simp_all add: cli_call_def responses_Suc)

lemma retry_loop_round:
  assumes "error_msg r = RETRY" and "sleep_time h r = Inr t" and "sleep_accepts h t"
  shows "retry_loop h self msg r w =
     retry_loop h self msg (call h (calls w) (the_request self msg))
       (w\<lparr>calls := Suc (calls w),
          trace := trace w @ [Sleep t, Call (the_request self msg)]\<rparr>)"
  using assms by (subst retry_loop.simps) (simp add: sleep_def cli_call_def)

lemma retry_loop_skip:
  assumes "\<forall>i<k. error_msg (responses h self msg r w i) = RETRY
              \<and> sleep_time h (responses h self msg r w i) = Inr (d i) \<and> sleep_accepts h (d i)"
  shows "retry_loop h self msg r w =
     retry_loop h self msg (responses h self msg r w k)
       (w\<lparr>calls := calls w + k,
          trace := trace w @ concat (map (\<lambda>i. [Sleep (d i), Call (the_request self msg)]) [0..<k])\<rparr>)"
  using assms
proof (induction k)
  case 0
  then show ?case by simp
next
  case (Suc k)
  let ?wk = "w\<lparr>calls := calls w + k,
          trace := trace w @ concat (map (\<lambda>i. [Sleep (d i), Call (the_request self msg)]) [0..<k])\<rparr>"
  from Suc.prems have prev: "\<forall>i<k. error_msg (responses h self msg r w i) = RETRY
              \<and> sleep_time h (responses h self msg r w i) = Inr (d i) \<and> sleep_accepts h (d i)"
    by simp
  from Suc.prems have here: "error_msg (responses h self msg r w k) = RETRY"
      "sleep_time h (responses h self msg r w k) = Inr (d k)" "sleep_accepts h (d k)"
    by simp_all
  have "retry_loop h self msg r w = retry_loop h self msg (responses h self msg r w k) ?wk"
    by (rule Suc.IH [OF prev])
  also have "\<dots> = retry_loop h self msg (call h (calls ?wk) (the_request self msg))
       (?wk\<lparr>calls := Suc (calls ?wk),
          trace := trace ?wk @ [Sleep (d k), Call (the_request self msg)]\<rparr>)"
    by (rule retry_loop_round [OF here])
  finally show ?case by (simp add: responses_Suc)
qed

lemma retry_loop_leaves:
  "error_msg r \<noteq> RETRY \<Longrightarrow> retry_loop h self msg r w = Some (Inr (), w)"
  by (subst retry_loop.simps) simp

lemma carries_delay_iff:
  "carries_delay h r = (\<exists>t. sleep_time h r = Inr t \<and> sleep_accepts h t)"
  by (auto simp: carries_delay_def split: sum.splits)

lemma retry_loop_Some_stops:
  assumes "retry_loop h self msg r w = Some res"
  shows "\<exists>i. \<not> (error_msg (responses h self msg r w i) = RETRY
               \<and> carries_delay h (responses h self msg r w i))"
proof (rule retry_loop.raw_induct
    [where P = "\<lambda>h self msg r w res. \<exists>i. \<not> (error_msg (responses h self msg r w i) = RETRY
               \<and> carries_delay h (responses h self msg r w i))", OF _ assms])
  fix rl :: "'f host \<Rightarrow> AgentTestExecutor \<Rightarrow> ManagerRequestTypes \<Rightarrow> Response \<Rightarrow> 'f world
     \<Rightarrow> ((py_error + unit) \<times> 'f world) option"
  fix h self msg r w res
  assume IH: "\<And>h self msg r w res. rl h self msg r w = Some res \<Longrightarrow>
      \<exists>i. \<not> (error_msg (responses h self msg r w i) = RETRY
               \<and> carries_delay h (responses h self msg r w i))"
  assume step: "(if error_msg r = RETRY
      then case sleep_time h r of Inl e \<Rightarrow> Some (Inl e, w)
           | Inr t \<Rightarrow>
               case sleep h t w of Inl e \<Rightarrow> Some (Inl e, w)
               | Inr w1 \<Rightarrow>
                   rl h self msg (fst (cli_call h (the_request self msg) w1))
                    (snd (cli_call h (the_request self msg) w1))
      else Some (Inr (), w)) = Some res"
  show "\<exists>i. \<not> (error_msg (responses h self msg r w i) = RETRY
               \<and> carries_delay h (responses h self msg r w i))"
  proof (cases "error_msg r = RETRY \<and> carries_delay h r")
    case False
    then have "\<not> (error_msg (responses h self msg r w 0) = RETRY
               \<and> carries_delay h (responses h self msg r w 0))" by simp
    then show ?thesis by blast
  next
    case True
    then obtain t where t: "sleep_time h r = Inr t" "sleep_accepts h t"
      by (auto simp: carries_delay_iff)
    let ?w1 = "w\<lparr>trace := trace w @ [Sleep t]\<rparr>"
    from step True t have "rl h self msg (fst (cli_call h (the_request self msg) ?w1))
                    (snd (cli_call h (the_request self msg) ?w1)) = Some res"
      by (simp add: sleep_def)
    from IH [OF this] obtain i where
      "\<not> (error_msg (responses h self msg (fst (cli_call h (the_request self msg) ?w1))
                    (snd (cli_call h (the_request self msg) ?w1)) i) = RETRY
        \<and> carries_delay h (responses h self msg (fst (cli_call h (the_request self msg) ?w1))
                    (snd (cli_call h (the_request self msg) ?w1)) i))" ..
    moreover have "responses h self msg (fst (cli_call h (the_request self msg) ?w1))
                    (snd (cli_call h (the_request self msg) ?w1)) i
                  = responses h self msg r w (Suc i)"
      by (rule responses_next) simp
    ultimately have "\<not> (error_msg (responses h self msg r w (Suc i)) = RETRY
               \<and> carries_delay h (responses h self msg r w (Suc i)))"
      by simp
    then show ?thesis by blast
  qed
qed


lemma responses_first_call:
  "responses h self msg (call h c (the_request self msg)) (w\<lparr>calls := Suc c, trace := tr\<rparr>) i
   = call h (c + i) (the_request self msg)"
  by (cases i) (simp_all add: responses_Suc)

lemma request_and_wait_for_response_unfold:
  assumes "wait_for_service h w = Some w1"
  shows "request_and_wait_for_response h self msg w =
     retry_loop h self msg (call h (calls w1) (the_request self msg))
       (w1\<lparr>calls := Suc (calls w1), trace := trace w1 @ [Call (the_request self msg)]\<rparr>)"
  using assms by (simp add: request_and_wait_for_response_def cli_call_def)

lemma retry_loop_stops:
  "\<not> (error_msg r = RETRY \<and> carries_delay h r) \<Longrightarrow>
   retry_loop h self msg r w = Some (stops_with h r, w)"
  by (subst retry_loop.simps)
     (auto simp: stops_with_def carries_delay_def sleep_def split: sum.splits)

lemma retry_loop_outcome:
  assumes usable: "\<forall>i<k. error_msg (responses h self msg r w i) = RETRY
                       \<and> carries_delay h (responses h self msg r w i)"
    and final: "\<not> (error_msg (responses h self msg r w k) = RETRY
                       \<and> carries_delay h (responses h self msg r w k))"
  shows "\<exists>w'. retry_loop h self msg r w = Some (stops_with h (responses h self msg r w k), w')
              \<and> calls w' = calls w + k"
proof -
  from usable have "\<forall>i. \<exists>t. i < k \<longrightarrow> error_msg (responses h self msg r w i) = RETRY
        \<and> sleep_time h (responses h self msg r w i) = Inr t \<and> sleep_accepts h t"
    by (auto simp: carries_delay_iff)
  then obtain d where d: "\<forall>i<k. error_msg (responses h self msg r w i) = RETRY
        \<and> sleep_time h (responses h self msg r w i) = Inr (d i) \<and> sleep_accepts h (d i)"
    by metis
  let ?wk = "w\<lparr>calls := calls w + k,
          trace := trace w @ concat (map (\<lambda>i. [Sleep (d i), Call (the_request self msg)]) [0..<k])\<rparr>"
  have "retry_loop h self msg r w = retry_loop h self msg (responses h self msg r w k) ?wk"
    by (rule retry_loop_skip [OF d])
  also have "\<dots> = Some (stops_with h (responses h self msg r w k), ?wk)"
    by (rule retry_loop_stops [OF final])
  finally show ?thesis by simp
qed

lemma retry_loop_Some_outcome:
  assumes "retry_loop h self msg r w = Some (out, w')"
  shows "\<exists>k. (\<forall>i<k. error_msg (responses h self msg r w i) = RETRY
                       \<and> carries_delay h (responses h self msg r w i))
            \<and> \<not> (error_msg (responses h self msg r w k) = RETRY
                       \<and> carries_delay h (responses h self msg r w k))
            \<and> out = stops_with h (responses h self msg r w k)
            \<and> calls w' = calls w + k"
proof -
  let ?good = "\<lambda>i. error_msg (responses h self msg r w i) = RETRY
                       \<and> carries_delay h (responses h self msg r w i)"
  from retry_loop_Some_stops [OF assms] have ex: "\<exists>i. \<not> ?good i" .
  define k where "k = (LEAST i. \<not> ?good i)"
  from ex have final: "\<not> ?good k" unfolding k_def by (rule LeastI_ex)
  have before: "\<forall>i<k. ?good i" unfolding k_def using not_less_Least by blast
  from retry_loop_outcome [OF before final] assms
  have "out = stops_with h (responses h self msg r w k) \<and> calls w' = calls w + k" by auto
  with before final show ?thesis by blast
qed

lemma stops_with_Inr: "(stops_with h r = Inr u) = (error_msg r \<noteq> RETRY)"
  by (auto simp: stops_with_def split: sum.splits)

lemma wait_for_service_calls:
  assumes "wait_for_service h w = Some w1"
  shows "calls w1 = calls w"
proof (rule wait_for_service.raw_induct
    [where P = "\<lambda>h w w1. calls w1 = calls w", OF _ assms])
  fix wfs :: "'f host \<Rightarrow> 'f world \<Rightarrow> 'f world option" and h w w1
  assume IH: "\<And>h w w1. wfs h w = Some w1 \<Longrightarrow> calls w1 = calls w"
    and step: "(if service_is_ready h (polls w) then Some (w\<lparr>polls := Suc (polls w)\<rparr>)
      else wfs h (w\<lparr>polls := Suc (polls w), trace := trace w @ [Sleep_0_1]\<rparr>)) = Some w1"
  show "calls w1 = calls w"
  proof (cases "service_is_ready h (polls w)")
    case True
    with step show ?thesis by auto
  next
    case False
    with step have "wfs h (w\<lparr>polls := Suc (polls w), trace := trace w @ [Sleep_0_1]\<rparr>) = Some w1"
      by simp
    from IH [OF this] show ?thesis by simp
  qed
qed

lemma sleep_time_Inl:
  "(sleep_time h r = Inl e) =
     (args r = [] \<and> e = IndexError \<or> args r \<noteq> [] \<and> py_float h (hd (args r)) = None \<and> e = ValueError)"
  by (auto simp: sleep_time_def split: list.splits option.splits)

lemma sleep_time_Inr:
  "args r \<noteq> [] \<Longrightarrow> py_float h (hd (args r)) = Some t \<Longrightarrow> sleep_time h r = Inr t"
  by (cases "args r") (simp_all add: sleep_time_def)

lemma stops_with_Inl:
  "stops_with h r = Inl e \<Longrightarrow> e \<noteq> Sleep_rejected \<Longrightarrow>
   error_msg r = RETRY \<and> sleep_time h r = Inl e"
  by (auto simp: stops_with_def split: if_splits sum.splits)

lemma request_and_wait_for_response_Some:
  assumes "request_and_wait_for_response h self msg w = Some (out, w')"
  shows "\<exists>k. out = stops_with h (call h (calls w + k) (the_request self msg))"
proof -
  let ?req = "the_request self msg"
  from assms obtain w1 where wait: "wait_for_service h w = Some w1"
    by (cases "wait_for_service h w") (auto simp: request_and_wait_for_response_def)
  have c: "calls w1 = calls w" by (rule wait_for_service_calls [OF wait])
  let ?r0 = "call h (calls w) ?req"
  let ?w2 = "w1\<lparr>calls := Suc (calls w), trace := trace w1 @ [Call ?req]\<rparr>"
  have "retry_loop h self msg ?r0 ?w2 = Some (out, w')"
    using request_and_wait_for_response_unfold [OF wait, of self msg] assms c by simp
  from retry_loop_Some_outcome [OF this] obtain k where
    "out = stops_with h (responses h self msg ?r0 ?w2 k)" by blast
  then have "out = stops_with h (call h (calls w + k) ?req)"
    by (simp only: responses_first_call)
  then show ?thesis ..
qed

subsection \<open>The broadcaster and the path subscription\<close>

lemma do_step_fields:
  "parent_id (snd (do_step s a)) = parent_id (snd s)
   \<and> child_id (snd (do_step s a)) = child_id (snd s)
   \<and> pos (snd (do_step s a)) = pos (snd s)"
  by (cases s; cases a) (simp_all add: broadcast_timer_callback_def)

lemma run_fields:
  "parent_id (snd (run s steps)) = parent_id (snd s)
   \<and> child_id (snd (run s steps)) = child_id (snd s)
   \<and> pos (snd (run s steps)) = pos (snd s)"
  by (induction steps arbitrary: s) (simp_all add: do_step_fields)

lemma do_step_store:
  "\<not> assigns_to r a \<Longrightarrow> fst (do_step s a) r = fst s r"
  by (cases s; cases a) auto

lemma do_step_br:
  "br (snd (do_step s a)) =
     br (snd s) @
       map (\<lambda>now. \<lparr>header_stamp = now, header_frame_id = parent_id (snd s),
                    child_frame_id = child_id (snd s),
                    transform_translation =
                      \<lparr>x = x (fst s (pos (snd s))), y = y (fst s (pos (snd s))),
                       z = z (fst s (pos (snd s)))\<rparr>\<rparr>) (stamps [a])"
  by (cases s; cases a) (simp_all add: broadcast_timer_callback_def)

lemma stamps_Cons: "stamps (a # later) = stamps [a] @ stamps later"
  by (cases a) simp_all

lemma run_br_static:
  "\<forall>a \<in> set steps. \<not> assigns_to (pos (snd s)) a \<Longrightarrow>
   br (snd (run s steps)) =
     br (snd s) @
       map (\<lambda>now. \<lparr>header_stamp = now, header_frame_id = parent_id (snd s),
                    child_frame_id = child_id (snd s),
                    transform_translation =
                      \<lparr>x = x (fst s (pos (snd s))), y = y (fst s (pos (snd s))),
                       z = z (fst s (pos (snd s)))\<rparr>\<rparr>) (stamps steps)"
proof (induction steps arbitrary: s)
  case Nil
  show ?case by simp
next
  case (Cons a steps)
  from Cons.prems have here: "\<not> assigns_to (pos (snd s)) a"
    and rest: "\<forall>b \<in> set steps. \<not> assigns_to (pos (snd (do_step s a))) b"
    by (simp_all add: do_step_fields)
  have same: "fst (do_step s a) (pos (snd s)) = fst s (pos (snd s))"
    by (rule do_step_store [OF here])
  show ?case
    by (simp add: Cons.IH [OF rest] do_step_fields same do_step_br stamps_Cons [of a steps])
qed

lemma run_br_ids:
  "length (br (snd (run s steps))) = length (br (snd s)) + length (stamps steps)
   \<and> (\<forall>m \<in> set (br (snd (run s steps))).
         m \<in> set (br (snd s))
         \<or> header_frame_id m = parent_id (snd s) \<and> child_frame_id m = child_id (snd s))"
proof (induction steps arbitrary: s)
  case Nil
  show ?case by simp
next
  case (Cons a steps)
  have "set (br (snd (do_step s a))) \<subseteq>
          set (br (snd s)) \<union> {m. header_frame_id m = parent_id (snd s)
                                 \<and> child_frame_id m = child_id (snd s)}"
    by (auto simp: do_step_br)
  moreover have "length (br (snd (do_step s a))) = length (br (snd s)) + length (stamps [a])"
    by (simp add: do_step_br)
  ultimately show ?case
    using Cons.IH [of "do_step s a"]
    by (auto simp: do_step_fields stamps_Cons [of a steps])
qed

lemma first_match:
  assumes "\<exists>a \<in> set ps. P a"
  shows "\<exists>i<length ps. P (ps ! i) \<and> (\<forall>j<i. \<not> P (ps ! j))"
proof -
  from assms obtain n where n: "n < length ps \<and> P (ps ! n)"
    by (auto simp: in_set_conv_nth)
  define i where "i = (LEAST n. n < length ps \<and> P (ps ! n))"
  from n have "i < length ps \<and> P (ps ! i)" unfolding i_def by (rule LeastI)
  moreover have "\<forall>j<i. \<not> P (ps ! j)"
  proof (intro allI impI notI)
    fix j assume "j < i" and "P (ps ! j)"
    with \<open>i < length ps \<and> P (ps ! i)\<close> have "j < length ps \<and> P (ps ! j)" by simp
    then have "i \<le> j" unfolding i_def by (rule Least_le)
    with \<open>j < i\<close> show False by simp
  qed
  ultimately show ?thesis by blast
qed

lemma sol_callback_loop_no_match:
  "\<forall>a \<in> set ps. path_agent_id a \<noteq> ex_agent_id self \<Longrightarrow>
   sol_callback_loop str self ps = info self (''NO PATH PUBLISHED FOR '' @ ex_agent_id self)"
  by (induction ps) simp_all

lemma sol_callback_loop_match:
  "i < length ps \<Longrightarrow> path_agent_id (ps ! i) = ex_agent_id self \<Longrightarrow>
   \<forall>j<i. path_agent_id (ps ! j) \<noteq> ex_agent_id self \<Longrightarrow>
   sol_callback_loop str self ps =
     info self (''PATH PUBLISHED FOR '' @ ex_agent_id self @ '': '' @ string_solution str (ps ! i))"
proof (induction ps arbitrary: i)
  case Nil
  then show ?case by simp
next
  case (Cons a ps)
  show ?case
  proof (cases i)
    case 0
    with Cons.prems show ?thesis by simp
  next
    case (Suc i')
    with Cons.prems have head: "path_agent_id a \<noteq> ex_agent_id self" by auto
    from Suc Cons.prems have "i' < length ps" "path_agent_id (ps ! i') = ex_agent_id self"
      "\<forall>j<i'. path_agent_id (ps ! j) \<noteq> ex_agent_id self" by auto
    from Cons.IH [OF this] head Suc show ?thesis by simp
  qed
qed

lemma join_concat:
  "join sep (s # ss) = s @ concat (map (\<lambda>t. sep @ t) ss)"
  by (induction ss arbitrary: s) simp_all

lemma string_solution_points:
  "string_solution str a =
     (case path a of
        [] \<Rightarrow> []
      | pt # pts \<Rightarrow>
          ''('' @ str (x (translation pt)) @ '', '' @ str (z (translation pt)) @ '')'' @
          concat (map (\<lambda>q. ''-->'' @ ''('' @ str (x (translation q)) @ '', ''
                               @ str (z (translation q)) @ '')'') pts))"
  by (cases "path a") (simp_all add: string_solution_def join_concat str_pair_def comp_def)

lemma string_solution_overwrite_y:
  "string_solution str
     \<lparr>path_agent_id = n,
      path = map (\<lambda>pt. \<lparr>translation = \<lparr>x = x (translation pt), y = c,
                                         z = z (translation pt)\<rparr>\<rparr>) (path a)\<rparr>
   = string_solution str a"
  by (simp add: string_solution_def comp_def)

lemma sol_callback_loop_overwrite_y:
  "sol_callback_loop str self
     (map (\<lambda>ap. \<lparr>path_agent_id = path_agent_id ap,
                 path = map (\<lambda>pt. \<lparr>translation = \<lparr>x = x (translation pt), y = c,
                                                    z = z (translation pt)\<rparr>\<rparr>) (path ap)\<rparr>) ps)
   = sol_callback_loop str self ps"
  by (induction ps) (simp_all add: string_solution_overwrite_y)

lemma length_removeAll_count:
  "length (removeAll a xs) + count_list xs a = length xs"
  by (induction xs) simp_all

subsection \<open>The claims\<close>

text \<open>
  Claim C1, amended. A call of \<open>request_and_wait_for_response\<close> first sleeps in the
  polling loop until the service reports ready (here at the poll number \<open>n\<close>, after \<open>n\<close>
  sleeps of 0.1), then sends one request with the given \<open>agent_msg\<close> and the executor's
  \<open>agent_id\<close>. While the responses are \<open>RETRY\<close> (here the first \<open>k\<close> of them), and provided
  each of them has non-empty \<open>args\<close> whose first element \<open>float\<close> converts to a duration
  that \<open>sleep\<close> accepts, it sleeps for that duration, the float of \<open>args[0]\<close> of that very
  response, and sends the same request again. It returns after the first response that is
  not \<open>RETRY\<close>. The trace lists exactly these sleeps and requests, in this order.
\<close>

theorem request_and_wait_for_response_protocol:
  assumes notyet: "\<forall>i<n. \<not> service_is_ready h (polls w + i)"
    and ready: "service_is_ready h (polls w + n)"
    and retry: "\<forall>i<k. error_msg (call h (calls w + i) (the_request self msg)) = RETRY
                  \<and> args (call h (calls w + i) (the_request self msg)) \<noteq> []
                  \<and> py_float h (hd (args (call h (calls w + i) (the_request self msg))))
                      = Some (d i)
                  \<and> sleep_accepts h (d i)"
    and final: "error_msg (call h (calls w + k) (the_request self msg)) \<noteq> RETRY"
  shows "request_and_wait_for_response h self msg w =
     Some (Inr (),
       w\<lparr>polls := Suc (polls w + n), calls := Suc (calls w + k),
         trace := trace w @ replicate n Sleep_0_1 @ Call (the_request self msg)
                    # concat (map (\<lambda>i. [Sleep (d i), Call (the_request self msg)]) [0..<k])\<rparr>)"
proof -
  let ?req = "the_request self msg"
  let ?w1 = "w\<lparr>polls := Suc (polls w + n), trace := trace w @ replicate n Sleep_0_1\<rparr>"
  let ?r0 = "call h (calls w) ?req"
  let ?w2 = "?w1\<lparr>calls := Suc (calls w), trace := trace ?w1 @ [Call ?req]\<rparr>"
  have wait: "wait_for_service h w = Some ?w1"
    by (rule wait_for_service_ready [OF notyet ready])
  have resp: "responses h self msg ?r0 ?w2 i = call h (calls w + i) ?req" for i
    by (rule responses_first_call)
  from retry have delays: "\<forall>i<k. error_msg (call h (calls w + i) ?req) = RETRY
                  \<and> sleep_time h (call h (calls w + i) ?req) = Inr (d i)
                  \<and> sleep_accepts h (d i)"
    by (simp add: sleep_time_Inr)
  have "request_and_wait_for_response h self msg w = retry_loop h self msg ?r0 ?w2"
    using request_and_wait_for_response_unfold [OF wait] by simp
  also have "\<dots> = retry_loop h self msg (responses h self msg ?r0 ?w2 k)
       (?w2\<lparr>calls := calls ?w2 + k,
          trace := trace ?w2 @ concat (map (\<lambda>i. [Sleep (d i), Call ?req]) [0..<k])\<rparr>)"
    by (rule retry_loop_skip) (simp only: resp, rule delays)
  also have "\<dots> = Some (Inr (), ?w2\<lparr>calls := calls ?w2 + k,
          trace := trace ?w2 @ concat (map (\<lambda>i. [Sleep (d i), Call ?req]) [0..<k])\<rparr>)"
    by (rule retry_loop_leaves) (simp only: resp, rule final)
  finally show ?thesis by simp
qed

theorem request_and_wait_for_response_protocol_witness:
  "request_and_wait_for_response two_delays_host agent_1 IDLE fresh_world =
     Some (Inr (),
       \<lparr>polls = 3, calls = 3,
        trace = [Sleep_0_1, Sleep_0_1,
                 Call \<lparr>agent_msg = IDLE, agent_id = ''agent_1''\<rparr>,
                 Sleep (1 / 2), Call \<lparr>agent_msg = IDLE, agent_id = ''agent_1''\<rparr>,
                 Sleep 2, Call \<lparr>agent_msg = IDLE, agent_id = ''agent_1''\<rparr>]\<rparr>)"
  using request_and_wait_for_response_protocol
    [where n = 2 and h = two_delays_host and w = fresh_world and k = 2
       and self = agent_1 and msg = IDLE and d = "\<lambda>i. if i = 0 then 1 / 2 else 2"]
  by (simp add: two_delays_host_def fresh_world_def agent_1_def AgentTestExecutor_init_def
      float_of_delay_text_def numeral_2_eq_2 numeral_3_eq_3 less_Suc_eq)

text \<open>
  The claim as first stated, for every call, fails when a \<open>RETRY\<close> response has empty
  \<open>args\<close>: the call is ended by the \<open>IndexError\<close> of line 91 after its first request. It
  has not slept, has not sent the request again, and does not return after the
  \<open>WAIT_PLAN\<close> response that the service would have given next.
\<close>

theorem request_and_wait_for_response_counterexample:
  "error_msg (call empty_args_then_plan_host 0 \<lparr>agent_msg = IDLE, agent_id = ''agent_1''\<rparr>) = RETRY
   \<and> error_msg (call empty_args_then_plan_host 1 \<lparr>agent_msg = IDLE, agent_id = ''agent_1''\<rparr>)
       = WAIT_PLAN
   \<and> request_and_wait_for_response empty_args_then_plan_host agent_1 IDLE fresh_world =
       Some (Inl IndexError,
         \<lparr>polls = 1, calls = 1,
          trace = [Call \<lparr>agent_msg = IDLE, agent_id = ''agent_1''\<rparr>]\<rparr>)"
proof -
  have wait: "wait_for_service empty_args_then_plan_host fresh_world
                = Some (fresh_world\<lparr>polls := Suc (polls fresh_world)\<rparr>)"
    by (subst wait_for_service.simps) (simp add: empty_args_then_plan_host_def)
  show ?thesis
    unfolding request_and_wait_for_response_unfold [OF wait]
    by (subst retry_loop.simps)
       (simp add: empty_args_then_plan_host_def fresh_world_def agent_1_def
          AgentTestExecutor_init_def sleep_time_def)
qed

text \<open>
  Claim C2, amended. The retry loop of \<open>request_and_wait_for_response\<close> has no limit on
  the number of attempts, no cap on the delay and no escalation. It runs forever exactly
  when every response it reads is \<open>RETRY\<close> and carries a usable delay (a first element of
  \<open>args\<close> that \<open>float\<close> converts and \<open>sleep\<close> accepts). It is left normally exactly when
  some response is not \<open>RETRY\<close> and every response before that one is a \<open>RETRY\<close> with a
  usable delay, however many of those there are.
\<close>

theorem retry_loop_unbounded:
  "((retry_loop h self msg r w = None)
      = (\<forall>i. error_msg (responses h self msg r w i) = RETRY
              \<and> carries_delay h (responses h self msg r w i)))
   \<and> ((\<exists>w'. retry_loop h self msg r w = Some (Inr (), w'))
      = (\<exists>k. error_msg (responses h self msg r w k) \<noteq> RETRY
              \<and> (\<forall>i<k. error_msg (responses h self msg r w i) = RETRY
                         \<and> carries_delay h (responses h self msg r w i))))"
proof (intro conjI iffI)
  assume none: "retry_loop h self msg r w = None"
  show "\<forall>i. error_msg (responses h self msg r w i) = RETRY
              \<and> carries_delay h (responses h self msg r w i)"
  proof (rule ccontr)
    assume "\<not> (\<forall>i. error_msg (responses h self msg r w i) = RETRY
              \<and> carries_delay h (responses h self msg r w i))"
    then have ex: "\<exists>i. \<not> (error_msg (responses h self msg r w i) = RETRY
              \<and> carries_delay h (responses h self msg r w i))" by simp
    define k where "k = (LEAST i. \<not> (error_msg (responses h self msg r w i) = RETRY
              \<and> carries_delay h (responses h self msg r w i)))"
    from ex have final: "\<not> (error_msg (responses h self msg r w k) = RETRY
              \<and> carries_delay h (responses h self msg r w k))"
      unfolding k_def by (rule LeastI_ex)
    have "\<forall>i<k. error_msg (responses h self msg r w i) = RETRY
              \<and> carries_delay h (responses h self msg r w i)"
      unfolding k_def using not_less_Least by blast
    from retry_loop_outcome [OF this final] none show False by auto
  qed
next
  assume all: "\<forall>i. error_msg (responses h self msg r w i) = RETRY
              \<and> carries_delay h (responses h self msg r w i)"
  show "retry_loop h self msg r w = None"
  proof (cases "retry_loop h self msg r w")
    case None
    then show ?thesis .
  next
    case (Some res)
    from retry_loop_Some_stops [OF this] all show ?thesis by blast
  qed
next
  assume "\<exists>w'. retry_loop h self msg r w = Some (Inr (), w')"
  then obtain w' where "retry_loop h self msg r w = Some (Inr (), w')" ..
  from retry_loop_Some_outcome [OF this] obtain k where
    before: "\<forall>i<k. error_msg (responses h self msg r w i) = RETRY
                       \<and> carries_delay h (responses h self msg r w i)"
    and out: "Inr () = stops_with h (responses h self msg r w k)" by blast
  from out have "error_msg (responses h self msg r w k) \<noteq> RETRY"
    using stops_with_Inr [of h "responses h self msg r w k" "()"] by simp
  with before show "\<exists>k. error_msg (responses h self msg r w k) \<noteq> RETRY
              \<and> (\<forall>i<k. error_msg (responses h self msg r w i) = RETRY
                         \<and> carries_delay h (responses h self msg r w i))" by blast
next
  assume "\<exists>k. error_msg (responses h self msg r w k) \<noteq> RETRY
              \<and> (\<forall>i<k. error_msg (responses h self msg r w i) = RETRY
                         \<and> carries_delay h (responses h self msg r w i))"
  then obtain k where final: "error_msg (responses h self msg r w k) \<noteq> RETRY"
    and before: "\<forall>i<k. error_msg (responses h self msg r w i) = RETRY
                         \<and> carries_delay h (responses h self msg r w i)" by blast
  from final have nf: "\<not> (error_msg (responses h self msg r w k) = RETRY
                       \<and> carries_delay h (responses h self msg r w k))" by simp
  from retry_loop_outcome [OF before nf] final
  show "\<exists>w'. retry_loop h self msg r w = Some (Inr (), w')"
    by (auto simp: stops_with_def)
qed

theorem retry_loop_unbounded_witness:
  "retry_loop always_busy_host agent_1 IDLE \<lparr>error_msg = RETRY, args = [''0.5'']\<rparr> fresh_world = None
   \<and> (\<exists>w'. retry_loop busy_twice_host agent_1 IDLE \<lparr>error_msg = RETRY, args = [''0.5'']\<rparr>
              fresh_world = Some (Inr (), w'))"
proof
  show "retry_loop always_busy_host agent_1 IDLE \<lparr>error_msg = RETRY, args = [''0.5'']\<rparr> fresh_world = None"
    using retry_loop_unbounded [where h = always_busy_host and self = agent_1 and msg = IDLE
      and r = "\<lparr>error_msg = RETRY, args = [''0.5'']\<rparr>" and w = fresh_world]
    by (simp add: responses_def always_busy_host_def carries_delay_def sleep_time_def
      float_of_text_def split: nat.split)
next
  have "error_msg (responses busy_twice_host agent_1 IDLE \<lparr>error_msg = RETRY, args = [''0.5'']\<rparr>
          fresh_world 3) \<noteq> RETRY
        \<and> (\<forall>i<3. error_msg (responses busy_twice_host agent_1 IDLE
                      \<lparr>error_msg = RETRY, args = [''0.5'']\<rparr> fresh_world i) = RETRY
               \<and> carries_delay busy_twice_host (responses busy_twice_host agent_1 IDLE
                      \<lparr>error_msg = RETRY, args = [''0.5'']\<rparr> fresh_world i))"
    by (simp add: responses_def busy_twice_host_def fresh_world_def carries_delay_def
        sleep_time_def float_of_text_def numeral_3_eq_3 less_Suc_eq split: nat.split)
  then show "\<exists>w'. retry_loop busy_twice_host agent_1 IDLE \<lparr>error_msg = RETRY, args = [''0.5'']\<rparr>
              fresh_world = Some (Inr (), w')"
    using retry_loop_unbounded [where h = busy_twice_host and self = agent_1 and msg = IDLE
      and r = "\<lparr>error_msg = RETRY, args = [''0.5'']\<rparr>" and w = fresh_world]
    by blast
qed

text \<open>
  The claim as first stated, that the loop never terminates whenever every response is
  \<open>RETRY\<close>, fails when such a response has empty \<open>args\<close>: the loop is left at once by the
  \<open>IndexError\<close> of line 91.
\<close>

theorem retry_loop_all_retry_counterexample:
  "(\<forall>i. error_msg (responses empty_args_host agent_1 IDLE \<lparr>error_msg = RETRY, args = []\<rparr>
            fresh_world i) = RETRY)
   \<and> retry_loop empty_args_host agent_1 IDLE \<lparr>error_msg = RETRY, args = []\<rparr> fresh_world
       = Some (Inl IndexError, fresh_world)"
  by (subst retry_loop.simps)
     (simp add: responses_def empty_args_host_def sleep_time_def split: nat.split)

text \<open>
  Claim C9. \<open>request_and_wait_for_response\<close> takes \<open>args[0]\<close> of a \<open>RETRY\<close> response and
  converts it to a float with no guard. When every \<open>RETRY\<close> response the service gives has
  non-empty \<open>args\<close> whose first element \<open>float\<close> converts, the call never ends in the
  \<open>IndexError\<close> or the \<open>ValueError\<close> of line 91. A \<open>RETRY\<close> response that the call
  receives (the service was found ready, and the responses before it were \<open>RETRY\<close> with a
  usable delay) and that has empty \<open>args\<close>, or a first element that \<open>float\<close> does not
  convert, makes the call fail: with \<open>IndexError\<close> in the first case, with \<open>ValueError\<close>
  in the second.
\<close>

theorem retry_delay_unguarded:
  "((\<forall>i. error_msg (call h (calls w + i) (the_request self msg)) = RETRY \<longrightarrow>
          args (call h (calls w + i) (the_request self msg)) \<noteq> []
          \<and> py_float h (hd (args (call h (calls w + i) (the_request self msg)))) \<noteq> None)
     \<longrightarrow> (\<forall>w'. request_and_wait_for_response h self msg w \<noteq> Some (Inl IndexError, w')
              \<and> request_and_wait_for_response h self msg w \<noteq> Some (Inl ValueError, w')))
   \<and> ((\<forall>i<n. \<not> service_is_ready h (polls w + i)) \<and> service_is_ready h (polls w + n)
       \<and> (\<forall>i<k. error_msg (call h (calls w + i) (the_request self msg)) = RETRY
                \<and> carries_delay h (call h (calls w + i) (the_request self msg)))
       \<and> error_msg (call h (calls w + k) (the_request self msg)) = RETRY
       \<and> (args (call h (calls w + k) (the_request self msg)) = []
          \<or> py_float h (hd (args (call h (calls w + k) (the_request self msg)))) = None)
     \<longrightarrow> (\<exists>w'. request_and_wait_for_response h self msg w
               = Some (Inl (if args (call h (calls w + k) (the_request self msg)) = []
                            then IndexError else ValueError), w')))"
proof (intro conjI impI allI)
  fix w'
  assume pre: "\<forall>i. error_msg (call h (calls w + i) (the_request self msg)) = RETRY \<longrightarrow>
          args (call h (calls w + i) (the_request self msg)) \<noteq> []
          \<and> py_float h (hd (args (call h (calls w + i) (the_request self msg)))) \<noteq> None"
  have no: "request_and_wait_for_response h self msg w \<noteq> Some (Inl e, w')"
    if e: "e \<noteq> Sleep_rejected" for e
  proof
    assume "request_and_wait_for_response h self msg w = Some (Inl e, w')"
    from request_and_wait_for_response_Some [OF this] obtain k where
      "Inl e = stops_with h (call h (calls w + k) (the_request self msg))" ..
    then have "stops_with h (call h (calls w + k) (the_request self msg)) = Inl e" by simp
    from stops_with_Inl [OF this e]
    have "error_msg (call h (calls w + k) (the_request self msg)) = RETRY"
      and "sleep_time h (call h (calls w + k) (the_request self msg)) = Inl e" by simp_all
    with pre show False by (auto simp: sleep_time_Inl)
  qed
  show "request_and_wait_for_response h self msg w \<noteq> Some (Inl IndexError, w')"
    by (rule no) simp
  show "request_and_wait_for_response h self msg w \<noteq> Some (Inl ValueError, w')"
    by (rule no) simp
next
  let ?req = "the_request self msg"
  assume a: "(\<forall>i<n. \<not> service_is_ready h (polls w + i)) \<and> service_is_ready h (polls w + n)
       \<and> (\<forall>i<k. error_msg (call h (calls w + i) ?req) = RETRY
                \<and> carries_delay h (call h (calls w + i) ?req))
       \<and> error_msg (call h (calls w + k) ?req) = RETRY
       \<and> (args (call h (calls w + k) ?req) = []
          \<or> py_float h (hd (args (call h (calls w + k) ?req))) = None)"
  let ?w1 = "w\<lparr>polls := Suc (polls w + n), trace := trace w @ replicate n Sleep_0_1\<rparr>"
  let ?r0 = "call h (calls w) ?req"
  let ?w2 = "?w1\<lparr>calls := Suc (calls w), trace := trace ?w1 @ [Call ?req]\<rparr>"
  let ?e = "if args (call h (calls w + k) ?req) = [] then IndexError else ValueError"
  from a have wait: "wait_for_service h w = Some ?w1"
    by (intro wait_for_service_ready) simp_all
  have resp: "responses h self msg ?r0 ?w2 i = call h (calls w + i) ?req" for i
    by (rule responses_first_call)
  have run: "request_and_wait_for_response h self msg w = retry_loop h self msg ?r0 ?w2"
    using request_and_wait_for_response_unfold [OF wait] by simp
  from a have st: "sleep_time h (call h (calls w + k) ?req) = Inl ?e"
    by (auto simp: sleep_time_Inl)
  then have bad: "\<not> (error_msg (responses h self msg ?r0 ?w2 k) = RETRY
                    \<and> carries_delay h (responses h self msg ?r0 ?w2 k))"
    by (simp only: resp) (simp add: carries_delay_def)
  from a have before: "\<forall>i<k. error_msg (responses h self msg ?r0 ?w2 i) = RETRY
                    \<and> carries_delay h (responses h self msg ?r0 ?w2 i)"
    by (simp only: resp) simp
  from retry_loop_outcome [OF before bad] obtain w' where
    "retry_loop h self msg ?r0 ?w2 = Some (stops_with h (responses h self msg ?r0 ?w2 k), w')"
    by blast
  moreover from a st have "stops_with h (responses h self msg ?r0 ?w2 k) = Inl ?e"
    by (simp only: resp) (simp add: stops_with_def)
  ultimately have "request_and_wait_for_response h self msg w = Some (Inl ?e, w')"
    using run by simp
  then show "\<exists>w'. request_and_wait_for_response h self msg w = Some (Inl ?e, w')" ..
qed

theorem retry_delay_unguarded_witness:
  "(\<forall>w'. request_and_wait_for_response busy_twice_host agent_1 IDLE fresh_world
            \<noteq> Some (Inl IndexError, w'))
   \<and> (\<forall>w'. request_and_wait_for_response busy_twice_host agent_1 IDLE fresh_world
            \<noteq> Some (Inl ValueError, w'))
   \<and> (\<exists>w'. request_and_wait_for_response empty_args_host agent_1 IDLE fresh_world
              = Some (Inl IndexError, w'))"
proof (intro conjI)
  have pre: "\<forall>i. error_msg (call busy_twice_host (calls fresh_world + i) (the_request agent_1 IDLE))
               = RETRY \<longrightarrow>
          args (call busy_twice_host (calls fresh_world + i) (the_request agent_1 IDLE)) \<noteq> []
          \<and> py_float busy_twice_host
               (hd (args (call busy_twice_host (calls fresh_world + i) (the_request agent_1 IDLE))))
              \<noteq> None"
    by (auto simp: busy_twice_host_def float_of_text_def intro: exI [of _ "1 / 2"])
  from retry_delay_unguarded [where h = busy_twice_host and w = fresh_world and self = agent_1
      and msg = IDLE, THEN conjunct1, THEN mp, OF pre]
  show "\<forall>w'. request_and_wait_for_response busy_twice_host agent_1 IDLE fresh_world
            \<noteq> Some (Inl IndexError, w')"
    and "\<forall>w'. request_and_wait_for_response busy_twice_host agent_1 IDLE fresh_world
            \<noteq> Some (Inl ValueError, w')" by simp_all
next
  show "\<exists>w'. request_and_wait_for_response empty_args_host agent_1 IDLE fresh_world
              = Some (Inl IndexError, w')"
    using retry_delay_unguarded [where h = empty_args_host and w = fresh_world and self = agent_1
      and msg = IDLE and n = 0 and k = 0, THEN conjunct2]
    by (simp add: empty_args_host_def)
qed

text \<open>
  Claim C3. For an agent id that the Manager does not know yet (it is not in
  \<open>unassigned_agents\<close>), after \<open>agent_callback\<close> has handled a request with \<open>agent_msg\<close>
  \<open>IDLE\<close> and that \<open>agent_id\<close>, the id is in \<open>unassigned_agents\<close> exactly once: it has
  been added at the end.
\<close>

theorem idle_request_adds_agent:
  assumes "agent_msg request = IDLE"
    and "agent_id request \<notin> set (unassigned_agents m)"
  shows "unassigned_agents (snd (agent_callback m request response))
           = unassigned_agents m @ [agent_id request]
         \<and> count_list (unassigned_agents (snd (agent_callback m request response)))
             (agent_id request) = 1"
  using assms by (simp add: agent_callback_def Let_def count_list_0_iff)

theorem idle_request_adds_agent_witness:
  "unassigned_agents (snd (agent_callback (Manager_init :: real Manager) idle_agent_1 blank_response))
     = [''agent_1'']
   \<and> count_list
        (unassigned_agents (snd (agent_callback (Manager_init :: real Manager) idle_agent_1
           blank_response))) ''agent_1'' = 1"
  using idle_request_adds_agent [where request = idle_agent_1 and m = "Manager_init :: real Manager"
      and response = blank_response]
  by (simp add: idle_agent_1_def Manager_init_def)

text \<open>
  Claim C4. For an agent id that is in \<open>unassigned_agents\<close>, after \<open>agent_callback\<close> has
  handled a request with \<open>agent_msg\<close> \<open>AGENT_DISCONNECTED\<close> and that \<open>agent_id\<close>, the id is
  no longer in \<open>unassigned_agents\<close>, and the collection is shorter by the number of times
  the id was in it, so strictly shorter.
\<close>

theorem disconnect_request_removes_agent:
  assumes "agent_msg request = AGENT_DISCONNECTED"
    and "agent_id request \<in> set (unassigned_agents m)"
  shows "agent_id request \<notin> set (unassigned_agents (snd (agent_callback m request response)))
         \<and> length (unassigned_agents (snd (agent_callback m request response)))
             + count_list (unassigned_agents m) (agent_id request)
           = length (unassigned_agents m)
         \<and> length (unassigned_agents (snd (agent_callback m request response)))
             < length (unassigned_agents m)"
proof -
  let ?m' = "snd (agent_callback m request response)"
  from assms(1) have eq: "unassigned_agents ?m' = removeAll (agent_id request) (unassigned_agents m)"
    by (simp add: agent_callback_def)
  from assms(2) have "count_list (unassigned_agents m) (agent_id request) \<noteq> 0"
    by (simp add: count_list_0_iff)
  then have pos: "0 < count_list (unassigned_agents m) (agent_id request)" by simp
  have len: "length (unassigned_agents ?m') + count_list (unassigned_agents m) (agent_id request)
           = length (unassigned_agents m)"
    by (simp add: eq length_removeAll_count)
  from eq have "agent_id request \<notin> set (unassigned_agents ?m')" by simp
  moreover from len pos have "length (unassigned_agents ?m') < length (unassigned_agents m)"
    by arith
  ultimately show ?thesis using len by blast
qed

theorem disconnect_request_removes_agent_witness:
  "''agent_1'' \<notin> set (unassigned_agents (snd (agent_callback
       (snd (agent_callback (Manager_init :: real Manager) idle_agent_1 blank_response))
       disconnect_agent_1 blank_response)))
   \<and> length (unassigned_agents (snd (agent_callback
       (snd (agent_callback (Manager_init :: real Manager) idle_agent_1 blank_response))
       disconnect_agent_1 blank_response))) = 0"
  using disconnect_request_removes_agent [where request = disconnect_agent_1
      and m = "snd (agent_callback (Manager_init :: real Manager) idle_agent_1 blank_response)"
      and response = blank_response]
  by (simp add: disconnect_agent_1_def idle_agent_1_def Manager_init_def agent_callback_def)

text \<open>
  Claim C5. For an \<open>AgentPaths\<close> message given to \<open>sol_callback\<close>: when some assigned path
  of the message has the executor's \<open>agent_id\<close>, the callback logs one line, the path of
  the first such entry (no entry before it matches), nothing for the entries after it and
  not the not-found line; when no entry matches, it logs exactly the one not-found line.
\<close>

theorem sol_callback_first_match:
  "((\<exists>a \<in> set (agent_paths msg). path_agent_id a = ex_agent_id self) \<longrightarrow>
      (\<exists>i<length (agent_paths msg).
          path_agent_id (agent_paths msg ! i) = ex_agent_id self
          \<and> (\<forall>j<i. path_agent_id (agent_paths msg ! j) \<noteq> ex_agent_id self)
          \<and> info_log (sol_callback str self msg) =
              info_log self @ [''PATH PUBLISHED FOR '' @ ex_agent_id self @ '': ''
                                 @ string_solution str (agent_paths msg ! i)])
      \<and> ''NO PATH PUBLISHED FOR '' @ ex_agent_id self
           \<notin> set (drop (length (info_log self)) (info_log (sol_callback str self msg))))
   \<and> (\<not> (\<exists>a \<in> set (agent_paths msg). path_agent_id a = ex_agent_id self) \<longrightarrow>
        info_log (sol_callback str self msg) =
          info_log self @ [''NO PATH PUBLISHED FOR '' @ ex_agent_id self])"
proof (intro conjI impI)
  assume "\<exists>a \<in> set (agent_paths msg). path_agent_id a = ex_agent_id self"
  from first_match [OF this] obtain i where i: "i < length (agent_paths msg)"
      "path_agent_id (agent_paths msg ! i) = ex_agent_id self"
      "\<forall>j<i. path_agent_id (agent_paths msg ! j) \<noteq> ex_agent_id self" by blast
  from sol_callback_loop_match [OF i]
  have log: "info_log (sol_callback str self msg) =
              info_log self @ [''PATH PUBLISHED FOR '' @ ex_agent_id self @ '': ''
                                 @ string_solution str (agent_paths msg ! i)]"
    by (simp add: sol_callback_def info_def)
  with i show "\<exists>i<length (agent_paths msg).
          path_agent_id (agent_paths msg ! i) = ex_agent_id self
          \<and> (\<forall>j<i. path_agent_id (agent_paths msg ! j) \<noteq> ex_agent_id self)
          \<and> info_log (sol_callback str self msg) =
              info_log self @ [''PATH PUBLISHED FOR '' @ ex_agent_id self @ '': ''
                                 @ string_solution str (agent_paths msg ! i)]" by blast
  from log show "''NO PATH PUBLISHED FOR '' @ ex_agent_id self
           \<notin> set (drop (length (info_log self)) (info_log (sol_callback str self msg)))"
    by simp
next
  assume "\<not> (\<exists>a \<in> set (agent_paths msg). path_agent_id a = ex_agent_id self)"
  then have "\<forall>a \<in> set (agent_paths msg). path_agent_id a \<noteq> ex_agent_id self" by simp
  from sol_callback_loop_no_match [OF this]
  show "info_log (sol_callback str self msg) =
          info_log self @ [''NO PATH PUBLISHED FOR '' @ ex_agent_id self]"
    by (simp add: sol_callback_def info_def)
qed

theorem sol_callback_first_match_witness:
  "info_log (sol_callback (\<lambda>s. s) agent_1 three_paths)
     = [''PATH PUBLISHED FOR agent_1: (1.0, 2.0)-->(3.0, 4.0)'']
   \<and> info_log (sol_callback (\<lambda>s. s) agent_1 no_path_for_agent_1)
     = [''NO PATH PUBLISHED FOR agent_1'']"
proof
  have "\<exists>a \<in> set (agent_paths three_paths). path_agent_id a = ex_agent_id agent_1"
    by (simp add: three_paths_def agent_1_def AgentTestExecutor_init_def)
  with sol_callback_first_match [where msg = three_paths and self = agent_1 and str = "\<lambda>s. s"]
  obtain i where "i < length (agent_paths three_paths)"
    "path_agent_id (agent_paths three_paths ! i) = ex_agent_id agent_1"
    "\<forall>j<i. path_agent_id (agent_paths three_paths ! j) \<noteq> ex_agent_id agent_1"
    and log: "info_log (sol_callback (\<lambda>s. s) agent_1 three_paths) =
              info_log agent_1 @ [''PATH PUBLISHED FOR '' @ ex_agent_id agent_1 @ '': ''
                                 @ string_solution (\<lambda>s. s) (agent_paths three_paths ! i)]"
    by blast
  then have "i = 1"
    by (auto simp: three_paths_def agent_1_def AgentTestExecutor_init_def numeral_3_eq_3
        less_Suc_eq)
  with log show "info_log (sol_callback (\<lambda>s. s) agent_1 three_paths)
     = [''PATH PUBLISHED FOR agent_1: (1.0, 2.0)-->(3.0, 4.0)'']"
    by (simp add: three_paths_def agent_1_def AgentTestExecutor_init_def string_solution_def
        str_pair_def point_def)
next
  show "info_log (sol_callback (\<lambda>s. s) agent_1 no_path_for_agent_1)
     = [''NO PATH PUBLISHED FOR agent_1'']"
    using sol_callback_first_match [where msg = no_path_for_agent_1 and self = agent_1
        and str = "\<lambda>s. s"]
    by (simp add: no_path_for_agent_1_def agent_1_def AgentTestExecutor_init_def)
qed

text \<open>
  Claim C6. In a state where the Manager has unassigned goals and no computed plan, an
  \<open>IDLE\<close> request of an agent is answered with \<open>error_msg\<close> \<open>WAIT_PLAN\<close>, and
  \<open>unassigned_goals\<close> is afterwards what it was before: every goal is still unassigned.
\<close>

theorem idle_request_waits_for_plan:
  assumes "agent_msg request = IDLE"
    and "unassigned_goals m \<noteq> []"
    and "computed_plan m = None"
  shows "error_msg (fst (agent_callback m request response)) = WAIT_PLAN
         \<and> unassigned_goals (snd (agent_callback m request response)) = unassigned_goals m"
  using assms by (simp add: agent_callback_def Let_def)

theorem idle_request_waits_for_plan_witness:
  "error_msg (fst (agent_callback (goal_callback Manager_init goal_50) idle_agent_1 blank_response))
     = WAIT_PLAN
   \<and> unassigned_goals (snd (agent_callback (goal_callback Manager_init goal_50) idle_agent_1
        blank_response)) = [goal_50]"
  using idle_request_waits_for_plan [where request = idle_agent_1
      and m = "goal_callback Manager_init goal_50" and response = blank_response]
  by (simp add: idle_agent_1_def goal_callback_def Manager_init_def)

text \<open>
  Claim C7, amended. For a \<open>FixedFrameBroadcaster\<close> built with a parent frame id, a child
  frame id and a position object, whatever ticks and assignments have happened since,
  every call of the timer callback sends exactly one transform, whose header frame id is
  the constructor's parent id, whose child frame id is the constructor's child id and
  whose translation has the \<open>x\<close>, \<open>y\<close>, \<open>z\<close> that the position object has at the time of
  the call. The transforms sent are one for each tick, all with these two frame ids. As
  long as no component of the position object is assigned after the construction, their
  translations are all the constructor's position, the same at every tick.
\<close>

theorem fixed_frame_broadcast_static:
  "br (broadcast_timer_callback
         (fst (run (st, FixedFrameBroadcaster_init parent child p freq) steps))
         (snd (run (st, FixedFrameBroadcaster_init parent child p freq) steps)) now)
     = br (snd (run (st, FixedFrameBroadcaster_init parent child p freq) steps))
         @ [\<lparr>header_stamp = now, header_frame_id = parent, child_frame_id = child,
             transform_translation =
               \<lparr>x = x (fst (run (st, FixedFrameBroadcaster_init parent child p freq) steps) p),
                y = y (fst (run (st, FixedFrameBroadcaster_init parent child p freq) steps) p),
                z = z (fst (run (st, FixedFrameBroadcaster_init parent child p freq) steps) p)\<rparr>\<rparr>]
   \<and> length (br (snd (run (st, FixedFrameBroadcaster_init parent child p freq) steps)))
       = length (stamps steps)
   \<and> (\<forall>m \<in> set (br (snd (run (st, FixedFrameBroadcaster_init parent child p freq) steps))).
         header_frame_id m = parent \<and> child_frame_id m = child)
   \<and> ((\<forall>a \<in> set steps. \<not> assigns_to p a) \<longrightarrow>
         br (snd (run (st, FixedFrameBroadcaster_init parent child p freq) steps))
           = map (\<lambda>now. \<lparr>header_stamp = now, header_frame_id = parent, child_frame_id = child,
                          transform_translation = \<lparr>x = x (st p), y = y (st p), z = z (st p)\<rparr>\<rparr>)
               (stamps steps))"
proof (intro conjI impI)
  let ?start = "(st, FixedFrameBroadcaster_init parent child p freq :: ('a, 'b) FixedFrameBroadcaster)"
  let ?after = "run ?start steps"
  have f0: "parent_id (snd ?start) = parent" "child_id (snd ?start) = child" "pos (snd ?start) = p"
      "br (snd ?start) = []"
    by (simp_all add: FixedFrameBroadcaster_init_def)
  have f: "parent_id (snd ?after) = parent" "child_id (snd ?after) = child" "pos (snd ?after) = p"
    using run_fields [of ?start steps] f0 by simp_all
  show "br (broadcast_timer_callback (fst ?after) (snd ?after) now)
     = br (snd ?after)
         @ [\<lparr>header_stamp = now, header_frame_id = parent, child_frame_id = child,
             transform_translation =
               \<lparr>x = x (fst ?after p), y = y (fst ?after p), z = z (fst ?after p)\<rparr>\<rparr>]"
    by (simp add: broadcast_timer_callback_def f)
  show "length (br (snd ?after)) = length (stamps steps)"
    using run_br_ids [of ?start steps] f0 by simp
  show "\<forall>m \<in> set (br (snd ?after)). header_frame_id m = parent \<and> child_frame_id m = child"
    using run_br_ids [of ?start steps] f0 by simp
  assume "\<forall>a \<in> set steps. \<not> assigns_to p a"
  then have "\<forall>a \<in> set steps. \<not> assigns_to (pos (snd ?start)) a"
    by (simp add: FixedFrameBroadcaster_init_def)
  from run_br_static [OF this] f0
  show "br (snd ?after)
           = map (\<lambda>now. \<lparr>header_stamp = now, header_frame_id = parent, child_frame_id = child,
                          transform_translation = \<lparr>x = x (st p), y = y (st p), z = z (st p)\<rparr>\<rparr>)
               (stamps steps)"
    by simp
qed

theorem fixed_frame_broadcast_static_witness:
  "br (snd (run (ones, arena_broadcaster) [Tick 0, Assign_x 5 9, Tick 1]))
     = [\<lparr>header_stamp = 0, header_frame_id = ''world'', child_frame_id = ''arena'',
         transform_translation = \<lparr>x = 1, y = 1, z = 1\<rparr>\<rparr>,
        \<lparr>header_stamp = 1, header_frame_id = ''world'', child_frame_id = ''arena'',
         transform_translation = \<lparr>x = 1, y = 1, z = 1\<rparr>\<rparr>]"
  using fixed_frame_broadcast_static [where st = ones and parent = "''world''"
      and child = "''arena''" and p = 0 and freq = "1 / 100"
      and steps = "[Tick 0, Assign_x 5 9, Tick (1::nat)]"]
  by (simp add: arena_broadcaster_def ones_def)

text \<open>
  The claim as first stated, that the translation of every tick is the constructor's
  position, the same at all ticks, fails when the caller assigns to the position object
  between two ticks: the broadcaster holds that object, not a copy, and the second tick
  sends the new value.
\<close>

theorem fixed_frame_broadcast_counterexample:
  "map (\<lambda>m. x (transform_translation m))
     (br (snd (run (ones, arena_broadcaster) [Tick 0, Assign_x 0 9, Tick 1])))
   = [1, 9]"
  by (simp add: arena_broadcaster_def ones_def FixedFrameBroadcaster_init_def
      broadcast_timer_callback_def)

text \<open>
  Claim C8. A call of \<open>publish_goal\<close> with a goal hands exactly one message, equal to that
  goal, to the goal channel: the list of published messages grows by that one element
  at its end. Nothing is held back and nothing is sent twice, and every other field of
  the publisher is as before.
\<close>

theorem publish_goal_once:
  "gp_published (publish_goal self goal) = gp_published self @ [goal]
   \<and> length (gp_published (publish_goal self goal)) = Suc (length (gp_published self))
   \<and> gp_node_name (publish_goal self goal) = gp_node_name self
   \<and> gp_topic (publish_goal self goal) = gp_topic self
   \<and> gp_qos_depth (publish_goal self goal) = gp_qos_depth self"
  by (simp add: publish_goal_def)

text \<open>
  Claim C10. When \<open>sol_callback\<close> logs a matching assigned path (the first entry with
  the executor's \<open>agent_id\<close>), the solution string in the logged line is empty for a path
  without points and otherwise the text of the first point followed, for every further
  point in the order of the path, by \<open>-->\<close> and the text of that point, where the text
  of a point is the pair of the \<open>x\<close> and \<open>z\<close> components of its translation, written
  \<open>(x, z)\<close>. The \<open>y\<close> component is not used: replacing every \<open>y\<close> of the message by any
  other value changes nothing of what \<open>sol_callback\<close> does.
\<close>

theorem logged_solution_x_z_only:
  "(i < length (agent_paths msg) \<and> path_agent_id (agent_paths msg ! i) = ex_agent_id self
      \<and> (\<forall>j<i. path_agent_id (agent_paths msg ! j) \<noteq> ex_agent_id self)
    \<longrightarrow> info_log (sol_callback str self msg) =
          info_log self @
            [''PATH PUBLISHED FOR '' @ ex_agent_id self @ '': '' @
               (case path (agent_paths msg ! i) of
                  [] \<Rightarrow> []
                | pt # pts \<Rightarrow>
                    ''('' @ str (x (translation pt)) @ '', '' @ str (z (translation pt)) @ '')''
                    @ concat (map (\<lambda>q. ''-->'' @ ''('' @ str (x (translation q)) @ '', ''
                                          @ str (z (translation q)) @ '')'') pts))])
   \<and> sol_callback str self (overwrite_y c msg) = sol_callback str self msg"
proof (intro conjI impI)
  assume a: "i < length (agent_paths msg) \<and> path_agent_id (agent_paths msg ! i) = ex_agent_id self
      \<and> (\<forall>j<i. path_agent_id (agent_paths msg ! j) \<noteq> ex_agent_id self)"
  then have "sol_callback_loop str self (agent_paths msg) =
     info self (''PATH PUBLISHED FOR '' @ ex_agent_id self @ '': ''
                  @ string_solution str (agent_paths msg ! i))"
    by (intro sol_callback_loop_match) simp_all
  then have "info_log (sol_callback str self msg) =
     info_log self @ [''PATH PUBLISHED FOR '' @ ex_agent_id self @ '': ''
                        @ string_solution str (agent_paths msg ! i)]"
    by (simp add: sol_callback_def info_def)
  then show "info_log (sol_callback str self msg) =
          info_log self @
            [''PATH PUBLISHED FOR '' @ ex_agent_id self @ '': '' @
               (case path (agent_paths msg ! i) of
                  [] \<Rightarrow> []
                | pt # pts \<Rightarrow>
                    ''('' @ str (x (translation pt)) @ '', '' @ str (z (translation pt)) @ '')''
                    @ concat (map (\<lambda>q. ''-->'' @ ''('' @ str (x (translation q)) @ '', ''
                                          @ str (z (translation q)) @ '')'') pts))]"
    by (simp only: string_solution_points)
next
  show "sol_callback str self (overwrite_y c msg) = sol_callback str self msg"
    by (simp add: sol_callback_def overwrite_y_def sol_callback_loop_overwrite_y)
qed

theorem logged_solution_x_z_only_witness:
  "info_log (sol_callback (\<lambda>s. s) agent_1 three_paths)
     = [''PATH PUBLISHED FOR agent_1: (1.0, 2.0)-->(3.0, 4.0)'']
   \<and> info_log (sol_callback (\<lambda>s. s) agent_1
        (only_path [point ''1.0'' ''7.0'' ''2.0'', point ''3.0'' ''8.0'' ''4.0'',
                    point ''5.0'' ''9.0'' ''6.0'']))
     = [''PATH PUBLISHED FOR agent_1: (1.0, 2.0)-->(3.0, 4.0)-->(5.0, 6.0)'']
   \<and> info_log (sol_callback (\<lambda>s. s) agent_1 (only_path [point ''1.0'' ''7.0'' ''2.0'']))
     = [''PATH PUBLISHED FOR agent_1: (1.0, 2.0)'']
   \<and> info_log (sol_callback (\<lambda>s. s) agent_1 (only_path []))
     = [''PATH PUBLISHED FOR agent_1: '']
   \<and> sol_callback (\<lambda>s. s) agent_1 (overwrite_y ''0.0'' three_paths)
     = sol_callback (\<lambda>s. s) agent_1 three_paths"
proof (intro conjI)
  show "info_log (sol_callback (\<lambda>s. s) agent_1 three_paths)
     = [''PATH PUBLISHED FOR agent_1: (1.0, 2.0)-->(3.0, 4.0)'']"
    using logged_solution_x_z_only [where i = 1 and msg = three_paths and self = agent_1
        and str = "\<lambda>s. s", THEN conjunct1]
    by (simp add: three_paths_def agent_1_def AgentTestExecutor_init_def point_def)
next
  show "info_log (sol_callback (\<lambda>s. s) agent_1
        (only_path [point ''1.0'' ''7.0'' ''2.0'', point ''3.0'' ''8.0'' ''4.0'',
                    point ''5.0'' ''9.0'' ''6.0'']))
     = [''PATH PUBLISHED FOR agent_1: (1.0, 2.0)-->(3.0, 4.0)-->(5.0, 6.0)'']"
    using logged_solution_x_z_only [where i = 0 and self = agent_1 and str = "\<lambda>s. s"
        and msg = "only_path [point ''1.0'' ''7.0'' ''2.0'', point ''3.0'' ''8.0'' ''4.0'',
                    point ''5.0'' ''9.0'' ''6.0'']", THEN conjunct1]
    by (simp add: only_path_def agent_1_def AgentTestExecutor_init_def point_def)
next
  show "info_log (sol_callback (\<lambda>s. s) agent_1 (only_path [point ''1.0'' ''7.0'' ''2.0'']))
     = [''PATH PUBLISHED FOR agent_1: (1.0, 2.0)'']"
    using logged_solution_x_z_only [where i = 0 and self = agent_1 and str = "\<lambda>s. s"
        and msg = "only_path [point ''1.0'' ''7.0'' ''2.0'']", THEN conjunct1]
    by (simp add: only_path_def agent_1_def AgentTestExecutor_init_def point_def)
next
  show "info_log (sol_callback (\<lambda>s. s) agent_1 (only_path []))
     = [''PATH PUBLISHED FOR agent_1: '']"
    using logged_solution_x_z_only [where i = 0 and self = agent_1 and str = "\<lambda>s. s"
        and msg = "only_path []", THEN conjunct1]
    by (simp add: only_path_def agent_1_def AgentTestExecutor_init_def)
next
  show "sol_callback (\<lambda>s. s) agent_1 (overwrite_y ''0.0'' three_paths)
     = sol_callback (\<lambda>s. s) agent_1 three_paths"
    by (rule logged_solution_x_z_only [THEN conjunct2])
qed

end
